theory Spec2Isabelle
  imports Complex_Main "HOL-Library.Word" "HOL-Library.Signed_Division"
begin

section \<open>Data model\<close>

text \<open>
  The program reads a decoded raster image and writes one SVG circle per grid region.
  Go's \<^verbatim>\<open>uint32\<close> is \<open>32 word\<close>, so that the channel sums wrap as they do in the source.
  Go's \<^verbatim>\<open>int\<close> is an \<open>int\<close> with the wrap-around of a 64-bit \<^verbatim>\<open>int\<close> written out
  (\<open>int64\<close>) where a product or a quotient of the parameters is formed; the pixel
  coordinates of the loops stay below the image size and are left as they are.
  The floating-point code is given twice. First a \<^verbatim>\<open>float64\<close> is read as the real number
  it denotes and its operations as exact (\<open>lumaBT709\<close>, \<open>lumaBT601\<close>, \<open>radius\<close>,
  \<open>makeDots\<close>): that serves the properties which no rounding error can change. Then every
  operation is rounded as the machine does (the definitions ending in \<open>_f64\<close>): that serves
  the properties decided by the last bit, which boxes pass the threshold and which radius
  is drawn. \<^verbatim>\<open>math.Sqrt\<close> of a negative number, a NaN, returns \<open>None\<close>.
\<close>

type_synonym u32 = "32 word"

text \<open>The red, green and blue results of \<^verbatim>\<open>RGBA()\<close>, and the three channel sums.\<close>

type_synonym rgb = "u32 \<times> u32 \<times> u32"

text \<open>
  \<^verbatim>\<open>image.Image\<close> as \<^verbatim>\<open>makeDots\<close> uses it: \<^verbatim>\<open>img.Bounds().Dx()\<close>,
  \<^verbatim>\<open>img.Bounds().Dy()\<close> and the red, green and blue results of
  \<^verbatim>\<open>img.At(cx, cy).RGBA()\<close> (the alpha result is discarded by the source).
\<close>

record image =
  Dx :: int
  Dy :: int
  At :: "int \<Rightarrow> int \<Rightarrow> rgb"

text \<open>One call of \<^verbatim>\<open>canvas.Circle(x, y, r, style)\<close>. The radius is \<open>None\<close> when the
  source converts a NaN to \<^verbatim>\<open>int\<close>, whose result Go leaves to the implementation.\<close>

record circle =
  circle_x :: int
  circle_y :: int
  circle_r :: "int option"
  circle_style :: string

text \<open>The two ways \<^verbatim>\<open>makeDots\<close> stops without returning: \<^verbatim>\<open>log.Fatalf\<close> after a failed
  \<^verbatim>\<open>os.Create\<close>, and the run-time panic of an integer division by zero.\<close>

datatype failure = CreateFailed | DivideByZero

section \<open>Machine arithmetic\<close>

definition int64 :: "int \<Rightarrow> int" where
  "int64 n = signed_take_bit 63 n"

text \<open>Go's \<^verbatim>\<open>/\<close> on \<^verbatim>\<open>int\<close> for a non-zero divisor: the quotient truncated towards zero.\<close>

definition quo :: "int \<Rightarrow> int \<Rightarrow> int" where
  "quo a b = int64 (a sdiv b)"

text \<open>The conversion \<^verbatim>\<open>int(f)\<close> of a finite \<^verbatim>\<open>float64\<close>: the fraction is discarded.\<close>

definition int_of_f64 :: "real \<Rightarrow> int" where
  "int_of_f64 f = (if f < 0 then \<lceil>f\<rceil> else \<lfloor>f\<rfloor>)"

text \<open>\<^verbatim>\<open>math.Sqrt\<close>: NaN (\<open>None\<close>) below zero.\<close>

definition sqrt_f64 :: "real \<Rightarrow> real option" where
  "sqrt_f64 f = (if f < 0 then None else Some (sqrt f))"

section \<open>Luma\<close>

definition lumaBT709 :: "u32 \<Rightarrow> u32 \<Rightarrow> u32 \<Rightarrow> real" where
  "lumaBT709 r g b =
     ((0.2126 * real (unat r)) + (0.7152 * real (unat g)) + (0.0722 * real (unat b))) / 255.0"

definition lumaBT601 :: "u32 \<Rightarrow> u32 \<Rightarrow> u32 \<Rightarrow> real" where
  "lumaBT601 r g b =
     ((0.299 * real (unat r)) + (0.587 * real (unat g)) + (0.144 * real (unat b))) / 255.0"

section \<open>Formatting\<close>

text \<open>\<^verbatim>\<open>fmt.Sprintf("%02x", v)\<close>: lower-case hexadecimal, padded with zeros to two digits.\<close>

definition hex_digit :: "nat \<Rightarrow> char" where
  "hex_digit d = ''0123456789abcdef'' ! d"

function hex :: "nat \<Rightarrow> string" where
  "hex n = (if n < 16 then [hex_digit n] else hex (n div 16) @ [hex_digit (n mod 16)])"
  by pat_completeness auto
termination
  by (relation "measure id") auto

declare hex.simps [simp del]

definition hex02 :: "u32 \<Rightarrow> string" where
  "hex02 v = (let s = hex (unat v) in replicate (2 - length s) (CHR ''0'') @ s)"

definition fill_style :: "u32 \<Rightarrow> u32 \<Rightarrow> u32 \<Rightarrow> string" where
  "fill_style r g b = ''fill:#'' @ hex02 r @ hex02 g @ hex02 b @ '';stroke:none''"

section \<open>The pipeline\<close>

text \<open>The values \<^verbatim>\<open>makeDots\<close> computes before its loops, and the parameters the loop
  body reads.\<close>

record locals =
  l_img :: image
  l_boxSize :: int
  l_lumaThreshold :: real
  l_color :: bool
  l_scale :: int
  l_lumaArea :: bool
  l_boxHalf :: int
  l_boxSizeSquared :: int
  l_widthSteps :: int
  l_heightSteps :: int
  l_lumaFunc :: "u32 \<Rightarrow> u32 \<Rightarrow> u32 \<Rightarrow> real"

text \<open>The two inner loops (lines 116 to 126): the three \<^verbatim>\<open>uint32\<close> accumulators wrap.\<close>

definition add_rgb :: "rgb \<Rightarrow> rgb \<Rightarrow> rgb" where
  "add_rgb acc p =
     (case acc of (rSum, gSum, bSum) \<Rightarrow> case p of (r, g, b) \<Rightarrow> (rSum + r, gSum + g, bSum + b))"

function jloop :: "image \<Rightarrow> int \<Rightarrow> int \<Rightarrow> int \<Rightarrow> int \<Rightarrow> int \<Rightarrow> rgb \<Rightarrow> rgb" where
  "jloop img boxSize x y i j acc =
     (if j < boxSize then
        (let cx = (x * boxSize) + i;
             cy = (y * boxSize) + j
         in jloop img boxSize x y i (j + 1) (add_rgb acc (At img cx cy)))
      else acc)"
  by pat_completeness auto
termination
  by (relation "measure (\<lambda>(img, boxSize, x, y, i, j, acc). nat (boxSize - j))") auto

declare jloop.simps [simp del]

function iloop :: "image \<Rightarrow> int \<Rightarrow> int \<Rightarrow> int \<Rightarrow> int \<Rightarrow> rgb \<Rightarrow> rgb" where
  "iloop img boxSize x y i acc =
     (if i < boxSize then iloop img boxSize x y (i + 1) (jloop img boxSize x y i 0 acc)
      else acc)"
  by pat_completeness auto
termination
  by (relation "measure (\<lambda>(img, boxSize, x, y, i, acc). nat (boxSize - i))") auto

declare iloop.simps [simp del]

text \<open>Lines 129 to 137 for one channel: the sum divided by the pixel count, then by
  \<^verbatim>\<open>0x101\<close> (for a non-zero count).\<close>

definition avg :: "u32 \<Rightarrow> u32 \<Rightarrow> u32" where
  "avg s n = (s div n) div 0x101"

text \<open>Lines 114 to 137: the sums and their division. The division by
  \<^verbatim>\<open>uint32(boxSizeSquared)\<close> panics when the converted count is zero.\<close>

definition regionColor :: "image \<Rightarrow> int \<Rightarrow> int \<Rightarrow> int \<Rightarrow> int \<Rightarrow> failure + rgb" where
  "regionColor img boxSize boxSizeSquared x y =
     (case iloop img boxSize x y 0 (0, 0, 0) of (rSum, gSum, bSum) \<Rightarrow>
        (let n = (word_of_int boxSizeSquared :: u32) in
         if n = 0 then Inl DivideByZero
         else Inr (avg rSum n, avg gSum n, avg bSum n)))"

text \<open>Lines 146 to 152.\<close>

definition radius :: "bool \<Rightarrow> real \<Rightarrow> int \<Rightarrow> int \<Rightarrow> real option" where
  "radius lumaArea luma boxHalf scale =
     (if lumaArea then
        map_option (\<lambda>s. s * 1.7 * real_of_int (int64 (boxHalf * scale)))
          (sqrt_f64 ((1.0 - luma) / pi))
      else Some ((1.0 - luma) * real_of_int (int64 (boxHalf * scale))))"

text \<open>Lines 144 to 158: the circle drawn for the box \<open>(x, y)\<close> of average colour
  \<open>(rSum, gSum, bSum)\<close> and luma \<open>luma\<close>.\<close>

definition dot :: "locals \<Rightarrow> int \<Rightarrow> int \<Rightarrow> rgb \<Rightarrow> real \<Rightarrow> circle" where
  "dot L x y rgb luma =
     (case rgb of (rSum, gSum, bSum) \<Rightarrow>
        \<lparr>circle_x = int64 (((x * l_boxSize L) + l_boxHalf L) * l_scale L),
         circle_y = int64 (((y * l_boxSize L) + l_boxHalf L) * l_scale L),
         circle_r = map_option int_of_f64 (radius (l_lumaArea L) luma (l_boxHalf L) (l_scale L)),
         circle_style =
           (if l_color L then fill_style rSum gSum bSum else ''fill:black;stroke:none'')\<rparr>)"

text \<open>The body of the loops (lines 114 to 158): a failure, \<open>None\<close> for
  \<^verbatim>\<open>continue\<close>, or the circle drawn.\<close>

definition region :: "locals \<Rightarrow> int \<Rightarrow> int \<Rightarrow> failure + circle option" where
  "region L x y =
     (case regionColor (l_img L) (l_boxSize L) (l_boxSizeSquared L) x y of
        Inl e \<Rightarrow> Inl e
      | Inr (rSum, gSum, bSum) \<Rightarrow>
          (let luma = l_lumaFunc L rSum gSum bSum in
           if luma \<ge> l_lumaThreshold L then Inr None
           else Inr (Some (dot L x y (rSum, gSum, bSum) luma))))"

function yloop :: "locals \<Rightarrow> int \<Rightarrow> int \<Rightarrow> circle list \<Rightarrow> failure + circle list" where
  "yloop L x y out =
     (if y < l_heightSteps L then
        (case region L x y of
           Inl e \<Rightarrow> Inl e
         | Inr None \<Rightarrow> yloop L x (y + 1) out
         | Inr (Some c) \<Rightarrow> yloop L x (y + 1) (out @ [c]))
      else Inr out)"
  by pat_completeness auto
termination
  by (relation "measure (\<lambda>(L, x, y, out). nat (l_heightSteps L - y))") auto

declare yloop.simps [simp del]

function xloop :: "locals \<Rightarrow> int \<Rightarrow> circle list \<Rightarrow> failure + circle list" where
  "xloop L x out =
     (if x < l_widthSteps L then
        (case yloop L x 0 out of
           Inl e \<Rightarrow> Inl e
         | Inr out' \<Rightarrow> xloop L (x + 1) out')
      else Inr out)"
  by pat_completeness auto
termination
  by (relation "measure (\<lambda>(L, x, out). nat (l_widthSteps L - x))") auto

declare xloop.simps [simp del]

text \<open>Lines 85 to 106, for a non-zero \<^verbatim>\<open>boxSize\<close>: the values computed before the loops.
  The luma function is chosen from the package-level flag \<^verbatim>\<open>*bt701\<close>.\<close>

definition mkLocals ::
  "bool \<Rightarrow> image \<Rightarrow> int \<Rightarrow> real \<Rightarrow> bool \<Rightarrow> int \<Rightarrow> bool \<Rightarrow> locals" where
  "mkLocals bt701 img boxSize lumaThreshold color scale lumaArea =
     (let width = Dx img;
          height = Dy img;
          boxHalf = quo boxSize 2;
          boxSizeSquared = int64 (boxSize * boxSize);
          widthSteps = quo width boxSize;
          heightSteps = quo height boxSize;
          lumaFunc = (if bt701 then lumaBT709 else lumaBT601)
      in \<lparr>l_img = img, l_boxSize = boxSize, l_lumaThreshold = lumaThreshold,
          l_color = color, l_scale = scale, l_lumaArea = lumaArea,
          l_boxHalf = boxHalf, l_boxSizeSquared = boxSizeSquared,
          l_widthSteps = widthSteps, l_heightSteps = heightSteps,
          l_lumaFunc = lumaFunc\<rparr>)"

text \<open>
  \<^verbatim>\<open>makeDots\<close>. Its first argument is the package-level flag \<^verbatim>\<open>*bt701\<close>, its second
  whether \<^verbatim>\<open>os.Create\<close> succeeds; the others are the parameters of the source, in
  order. The result is the sequence of circles drawn on the canvas; \<^verbatim>\<open>canvas.Start\<close> and
  \<^verbatim>\<open>canvas.End\<close>, which draw no circle, are left out. The division
  \<^verbatim>\<open>width / boxSize\<close> of line 99 panics for a zero \<^verbatim>\<open>boxSize\<close>.
\<close>

definition makeDots ::
  "bool \<Rightarrow> bool \<Rightarrow> image \<Rightarrow> int \<Rightarrow> real \<Rightarrow> bool \<Rightarrow> bool \<Rightarrow> string \<Rightarrow> int \<Rightarrow> bool
     \<Rightarrow> failure + circle list" where
  "makeDots bt701 create_ok img boxSize lumaThreshold color bt709 outputFileName scale lumaArea =
     (if \<not> create_ok then Inl CreateFailed
      else if boxSize = 0 then Inl DivideByZero
      else xloop (mkLocals bt701 img boxSize lumaThreshold color scale lumaArea) 0 [])"

section \<open>Vocabulary of the statements\<close>

text \<open>The boxes of a grid of \<open>ws\<close> columns and \<open>hs\<close> rows, in the order the loops of
  lines 111 and 112 visit them: \<open>x\<close> outside, \<open>y\<close> inside.\<close>

definition cells :: "int \<Rightarrow> int \<Rightarrow> (int \<times> int) list" where
  "cells ws hs = concat (map (\<lambda>x. map (\<lambda>y. (x, y)) [0..hs - 1]) [0..ws - 1])"

text \<open>The pixels of the box \<open>(x, y)\<close>, in the order lines 116 to 121 read them.\<close>

definition pixels :: "image \<Rightarrow> int \<Rightarrow> int \<Rightarrow> int \<Rightarrow> (rgb) list" where
  "pixels img boxSize x y =
     concat (map (\<lambda>i. map (\<lambda>j. At img ((x * boxSize) + i) ((y * boxSize) + j)) [0..boxSize - 1])
       [0..boxSize - 1])"

text \<open>The average colour and the luma that \<^verbatim>\<open>makeDots\<close> computes for the box \<open>(x, y)\<close>
  when the division by the pixel count does not panic.\<close>

definition boxColor :: "image \<Rightarrow> int \<Rightarrow> int \<Rightarrow> int \<Rightarrow> rgb" where
  "boxColor img boxSize x y =
     (case iloop img boxSize x y 0 (0, 0, 0) of (rSum, gSum, bSum) \<Rightarrow>
        (let n = (word_of_int (int64 (boxSize * boxSize)) :: u32)
         in (avg rSum n, avg gSum n, avg bSum n)))"

definition boxLuma :: "bool \<Rightarrow> image \<Rightarrow> int \<Rightarrow> int \<Rightarrow> int \<Rightarrow> real" where
  "boxLuma bt701 img boxSize x y =
     (case boxColor img boxSize x y of (r, g, b) \<Rightarrow>
        (if bt701 then lumaBT709 else lumaBT601) r g b)"


text \<open>The average of one channel as the specification words it: the sum of the 16-bit
  channel values of the box (a natural number, without wrap-around), divided by 257, then
  by the pixel count, both divisions truncating.\<close>

definition channelAverage_spec ::
  "(rgb \<Rightarrow> u32) \<Rightarrow> image \<Rightarrow> int \<Rightarrow> int \<Rightarrow> int \<Rightarrow> nat" where
  "channelAverage_spec ch img boxSize x y =
     (sum_list (map (\<lambda>p. unat (ch p)) (pixels img boxSize x y)) div 257)
       div nat (boxSize * boxSize)"

definition red :: "rgb \<Rightarrow> u32" where
  "red p = fst p"

definition green :: "rgb \<Rightarrow> u32" where
  "green p = fst (snd p)"

definition blue :: "rgb \<Rightarrow> u32" where
  "blue p = snd (snd p)"

subsection \<open>Example images\<close>

text \<open>A solid black image of 100 by 100 pixels.\<close>

definition black100 :: image where
  "black100 = \<lparr>Dx = 100, Dy = 100, At = (\<lambda>x y. (0, 0, 0))\<rparr>"

text \<open>A solid white image of 257 by 257 pixels.\<close>

definition white257 :: image where
  "white257 = \<lparr>Dx = 257, Dy = 257, At = (\<lambda>x y. (0xffff, 0xffff, 0xffff))\<rparr>"

section \<open>The floating-point code with every operation rounded\<close>

text \<open>
  The definitions above read the \<^verbatim>\<open>float64\<close> expressions of the source over the reals.
  Those of this section round the result of every floating-point operation as IEEE 754
  binary64 does: to the nearest value of 53 significant bits, a tie going to the even one,
  with the fixed spacing \<open>2 ^ - 1074\<close> below \<open>2 ^ - 1022\<close>. Overflow to an infinity is left
  out: no value computed by \<^verbatim>\<open>makeDots\<close> comes near \<open>2 ^ 1024\<close>. The operations are rounded
  one by one, as the amd64 compiler emits them; the Go specification lets an implementation
  fuse a multiplication with an addition, which may change the last bit of a luma.
\<close>

text \<open>The binary exponent of a positive number: \<open>2 ^ e \<le> x < 2 ^ (e + 1)\<close>, found by
  halving or doubling, at most \<open>fuel\<close> times.\<close>

function expo :: "nat \<Rightarrow> real \<Rightarrow> int" where
  "expo fuel x =
     (if fuel = 0 \<or> (1 \<le> x \<and> x < 2) then 0
      else if x < 1 then expo (fuel - 1) (2 * x) - 1
      else expo (fuel - 1) (x / 2) + 1)"
  by pat_completeness auto
termination
  by (relation "measure fst") auto

declare expo.simps [simp del]

definition pow2 :: "int \<Rightarrow> real" where
  "pow2 e = (if 0 \<le> e then 2 ^ nat e else 1 / 2 ^ nat (- e))"

text \<open>The nearest integer, a tie going to the even one.\<close>

definition round_even :: "real \<Rightarrow> int" where
  "round_even q =
     (let n = \<lfloor>q\<rfloor>; d = q - of_int n
      in if d < 1 / 2 then n else if 1 / 2 < d then n + 1 else if even n then n else n + 1)"

text \<open>The \<^verbatim>\<open>float64\<close> nearest to a real number.\<close>

definition rnd64 :: "real \<Rightarrow> real" where
  "rnd64 x =
     (if x = 0 then 0
      else (let e = max (expo 1100 \<bar>x\<bar>) (- 1022);
                ulp = pow2 (e - 52)
            in sgn x * (of_int (round_even (\<bar>x\<bar> / ulp)) * ulp)))"

text \<open>The operations \<^verbatim>\<open>+\<close>, \<^verbatim>\<open>-\<close>, \<^verbatim>\<open>*\<close> and \<^verbatim>\<open>/\<close> on \<^verbatim>\<open>float64\<close>, \<^verbatim>\<open>math.Sqrt\<close> (NaN, here
  \<open>None\<close>, below zero), the conversion \<^verbatim>\<open>float64(n)\<close> of an \<^verbatim>\<open>int\<close> and the conversion
  \<^verbatim>\<open>int(f)\<close>, which discards the fraction and whose result Go leaves to the implementation
  (\<open>None\<close>) when the value does not fit an \<^verbatim>\<open>int\<close>.\<close>

definition fadd :: "real \<Rightarrow> real \<Rightarrow> real" where
  "fadd a b = rnd64 (a + b)"

definition fsub :: "real \<Rightarrow> real \<Rightarrow> real" where
  "fsub a b = rnd64 (a - b)"

definition fmul :: "real \<Rightarrow> real \<Rightarrow> real" where
  "fmul a b = rnd64 (a * b)"

definition fdiv :: "real \<Rightarrow> real \<Rightarrow> real" where
  "fdiv a b = rnd64 (a / b)"

definition fsqrt :: "real \<Rightarrow> real option" where
  "fsqrt a = (if a < 0 then None else Some (rnd64 (sqrt a)))"

definition f64_of_int :: "int \<Rightarrow> real" where
  "f64_of_int n = rnd64 (real_of_int n)"

definition int_f64 :: "real \<Rightarrow> int option" where
  "int_f64 f =
     (if - (2 ^ 63) \<le> f \<and> f < 2 ^ 63 then Some (if f < 0 then \<lceil>f\<rceil> else \<lfloor>f\<rfloor>) else None)"

text \<open>\<^verbatim>\<open>math.Pi\<close>, an untyped constant of the \<^verbatim>\<open>math\<close> package, converted to \<^verbatim>\<open>float64\<close>.\<close>

definition pi_f64 :: real where
  "pi_f64 = rnd64 3.14159265358979323846264338327950288419716939937510582097494459"

text \<open>The two luma functions (lines 62 to 72): the decimal constants are converted to
  \<^verbatim>\<open>float64\<close>, the conversion of a \<^verbatim>\<open>uint32\<close> is exact.\<close>

definition lumaBT709_f64 :: "u32 \<Rightarrow> u32 \<Rightarrow> u32 \<Rightarrow> real" where
  "lumaBT709_f64 r g b =
     fdiv (fadd (fadd (fmul (rnd64 0.2126) (real (unat r))) (fmul (rnd64 0.7152) (real (unat g))))
                (fmul (rnd64 0.0722) (real (unat b))))
          255.0"

definition lumaBT601_f64 :: "u32 \<Rightarrow> u32 \<Rightarrow> u32 \<Rightarrow> real" where
  "lumaBT601_f64 r g b =
     fdiv (fadd (fadd (fmul (rnd64 0.299) (real (unat r))) (fmul (rnd64 0.587) (real (unat g))))
                (fmul (rnd64 0.144) (real (unat b))))
          255.0"

text \<open>Lines 146 to 152.\<close>

definition radius_f64 :: "bool \<Rightarrow> real \<Rightarrow> int \<Rightarrow> int \<Rightarrow> real option" where
  "radius_f64 lumaArea luma boxHalf scale =
     (if lumaArea then
        map_option (\<lambda>s. fmul (fmul s (rnd64 1.7)) (f64_of_int (int64 (boxHalf * scale))))
          (fsqrt (fdiv (fsub 1.0 luma) pi_f64))
      else Some (fmul (fsub 1.0 luma) (f64_of_int (int64 (boxHalf * scale)))))"

text \<open>Lines 144 to 158, lines 114 to 158, the two grid loops and \<^verbatim>\<open>makeDots\<close>, as above but
  for the rounded operations.\<close>

definition dot_f64 :: "locals \<Rightarrow> int \<Rightarrow> int \<Rightarrow> rgb \<Rightarrow> real \<Rightarrow> circle" where
  "dot_f64 L x y rgb luma =
     (case rgb of (rSum, gSum, bSum) \<Rightarrow>
        \<lparr>circle_x = int64 (((x * l_boxSize L) + l_boxHalf L) * l_scale L),
         circle_y = int64 (((y * l_boxSize L) + l_boxHalf L) * l_scale L),
         circle_r =
           (case radius_f64 (l_lumaArea L) luma (l_boxHalf L) (l_scale L) of
              None \<Rightarrow> None
            | Some f \<Rightarrow> int_f64 f),
         circle_style =
           (if l_color L then fill_style rSum gSum bSum else ''fill:black;stroke:none'')\<rparr>)"

definition region_f64 :: "locals \<Rightarrow> int \<Rightarrow> int \<Rightarrow> failure + circle option" where
  "region_f64 L x y =
     (case regionColor (l_img L) (l_boxSize L) (l_boxSizeSquared L) x y of
        Inl e \<Rightarrow> Inl e
      | Inr (rSum, gSum, bSum) \<Rightarrow>
          (let luma = l_lumaFunc L rSum gSum bSum in
           if luma \<ge> l_lumaThreshold L then Inr None
           else Inr (Some (dot_f64 L x y (rSum, gSum, bSum) luma))))"

function yloop_f64 :: "locals \<Rightarrow> int \<Rightarrow> int \<Rightarrow> circle list \<Rightarrow> failure + circle list" where
  "yloop_f64 L x y out =
     (if y < l_heightSteps L then
        (case region_f64 L x y of
           Inl e \<Rightarrow> Inl e
         | Inr None \<Rightarrow> yloop_f64 L x (y + 1) out
         | Inr (Some c) \<Rightarrow> yloop_f64 L x (y + 1) (out @ [c]))
      else Inr out)"
  by pat_completeness auto
termination
  by (relation "measure (\<lambda>(L, x, y, out). nat (l_heightSteps L - y))") auto

declare yloop_f64.simps [simp del]

function xloop_f64 :: "locals \<Rightarrow> int \<Rightarrow> circle list \<Rightarrow> failure + circle list" where
  "xloop_f64 L x out =
     (if x < l_widthSteps L then
        (case yloop_f64 L x 0 out of
           Inl e \<Rightarrow> Inl e
         | Inr out' \<Rightarrow> xloop_f64 L (x + 1) out')
      else Inr out)"
  by pat_completeness auto
termination
  by (relation "measure (\<lambda>(L, x, out). nat (l_widthSteps L - x))") auto

declare xloop_f64.simps [simp del]

definition mkLocals_f64 ::
  "bool \<Rightarrow> image \<Rightarrow> int \<Rightarrow> real \<Rightarrow> bool \<Rightarrow> int \<Rightarrow> bool \<Rightarrow> locals" where
  "mkLocals_f64 bt701 img boxSize lumaThreshold color scale lumaArea =
     (let width = Dx img;
          height = Dy img;
          boxHalf = quo boxSize 2;
          boxSizeSquared = int64 (boxSize * boxSize);
          widthSteps = quo width boxSize;
          heightSteps = quo height boxSize;
          lumaFunc = (if bt701 then lumaBT709_f64 else lumaBT601_f64)
      in \<lparr>l_img = img, l_boxSize = boxSize, l_lumaThreshold = lumaThreshold,
          l_color = color, l_scale = scale, l_lumaArea = lumaArea,
          l_boxHalf = boxHalf, l_boxSizeSquared = boxSizeSquared,
          l_widthSteps = widthSteps, l_heightSteps = heightSteps,
          l_lumaFunc = lumaFunc\<rparr>)"

definition makeDots_f64 ::
  "bool \<Rightarrow> bool \<Rightarrow> image \<Rightarrow> int \<Rightarrow> real \<Rightarrow> bool \<Rightarrow> bool \<Rightarrow> string \<Rightarrow> int \<Rightarrow> bool
     \<Rightarrow> failure + circle list" where
  "makeDots_f64 bt701 create_ok img boxSize lumaThreshold color bt709 outputFileName scale lumaArea =
     (if \<not> create_ok then Inl CreateFailed
      else if boxSize = 0 then Inl DivideByZero
      else xloop_f64 (mkLocals_f64 bt701 img boxSize lumaThreshold color scale lumaArea) 0 [])"

text \<open>The luma that \<^verbatim>\<open>makeDots\<close> computes for the box \<open>(x, y)\<close>, with the rounded
  operations.\<close>

definition boxLuma_f64 :: "bool \<Rightarrow> image \<Rightarrow> int \<Rightarrow> int \<Rightarrow> int \<Rightarrow> real" where
  "boxLuma_f64 bt701 img boxSize x y =
     (case boxColor img boxSize x y of (r, g, b) \<Rightarrow>
        (if bt701 then lumaBT709_f64 else lumaBT601_f64) r g b)"



text \<open>An image of one colour, \<open>w\<close> by \<open>h\<close> pixels.\<close>

definition uniform :: "int \<Rightarrow> int \<Rightarrow> rgb \<Rightarrow> image" where
  "uniform w h c = \<lparr>Dx = w, Dy = h, At = (\<lambda>x y. c)\<rparr>"

section \<open>Luma of grey triples\<close>

text \<open>
  C1. On an equal-channel triple \<open>(v, v, v)\<close> the BT.709 function returns \<open>v / 255\<close>, its
  weights summing to 1. The BT.601 function of the source has the weights 0.299, 0.587 and
  0.144, which sum to 1.03, and returns \<open>1.03 * v / 255\<close>.
\<close>

theorem luma_equal_channels:
  "lumaBT709 v v v = real (unat v) / 255 \<and>
   lumaBT601 v v v = 1.03 * (real (unat v) / 255) \<and>
   lumaBT601 255 255 255 - 255 / 255 = 0.03"
  by (simp add: lumaBT709_def lumaBT601_def)

text \<open>On channel values up to 255 the BT.709 function stays between 0 and 1; the BT.601
  function of the source stays between 0 and 1.03.\<close>

lemma lumaBT601_nonneg: "0 \<le> lumaBT601 r g b"
  unfolding lumaBT601_def
  by (intro divide_nonneg_nonneg add_nonneg_nonneg mult_nonneg_nonneg of_nat_0_le_iff) simp_all

lemma lumaBT709_nonneg: "0 \<le> lumaBT709 r g b"
  unfolding lumaBT709_def
  by (intro divide_nonneg_nonneg add_nonneg_nonneg mult_nonneg_nonneg of_nat_0_le_iff) simp_all

lemma lumaBT709_le_1:
  assumes "unat r \<le> 255" "unat g \<le> 255" "unat b \<le> 255"
  shows "lumaBT709 r g b \<le> 1"
proof -
  have "real (unat r) \<le> 255" "real (unat g) \<le> 255" "real (unat b) \<le> 255"
    using assms by (simp_all del: of_nat_unat)
  then have "0.2126 * real (unat r) + 0.7152 * real (unat g) + 0.0722 * real (unat b) \<le> 255"
    by (simp del: of_nat_unat)
  then show ?thesis
    unfolding lumaBT709_def by simp
qed

lemma lumaBT601_le:
  assumes "unat r \<le> 255" "unat g \<le> 255" "unat b \<le> 255"
  shows "lumaBT601 r g b \<le> 1.03"
proof -
  have "real (unat r) \<le> 255" "real (unat g) \<le> 255" "real (unat b) \<le> 255"
    using assms by (simp_all del: of_nat_unat)
  then have "0.299 * real (unat r) + 0.587 * real (unat g) + 0.144 * real (unat b) \<le> 262.65"
    by (simp del: of_nat_unat)
  then show ?thesis
    unfolding lumaBT601_def by simp
qed

text \<open>
  C5. On the white triple \<open>(255, 255, 255)\<close> the BT.601 function of the source returns 1.03,
  outside the closed interval from 0 to 1.
\<close>

theorem lumaBT601_white_above_one:
  "lumaBT601 255 255 255 = 1.03 \<and> \<not> lumaBT601 255 255 255 \<le> 1"
  by (simp add: lumaBT601_def)

section \<open>The unused parameter\<close>

text \<open>
  C10. The parameter \<^verbatim>\<open>bt709\<close> of \<^verbatim>\<open>makeDots\<close> has no effect on the output: the luma
  function of a run is chosen from the package-level flag \<^verbatim>\<open>*bt701\<close>.
\<close>

theorem makeDots_bt709_unused:
  "makeDots bt701 create_ok img boxSize lumaThreshold color True outputFileName scale lumaArea =
   makeDots bt701 create_ok img boxSize lumaThreshold color False outputFileName scale lumaArea \<and>
   l_lumaFunc (mkLocals bt701 img boxSize lumaThreshold color scale lumaArea) =
     (if bt701 then lumaBT709 else lumaBT601)"
  by (simp add: makeDots_def mkLocals_def)

section \<open>The loops as lists\<close>

text \<open>The two pixel loops fold \<open>add_rgb\<close> over the pixels of the box; the two grid loops
  collect the circles of the boxes they visit, as long as no box fails.\<close>

lemma jloop_foldl:
  "jloop img boxSize x y i j acc =
     foldl add_rgb acc (map (\<lambda>j. At img ((x * boxSize) + i) ((y * boxSize) + j)) [j..boxSize - 1])"
proof (induction img boxSize x y i j acc rule: jloop.induct)
  case (1 img boxSize x y i j acc)
  show ?case
  proof (cases "j < boxSize")
    case True
    then have "[j..boxSize - 1] = j # [j + 1..boxSize - 1]"
      by (simp add: upto_rec1)
    with True 1 show ?thesis
      by (subst jloop.simps) (simp add: Let_def)
  next
    case False
    then show ?thesis by (subst jloop.simps) simp
  qed
qed

lemma iloop_foldl:
  "iloop img boxSize x y i acc =
     foldl add_rgb acc
       (concat (map (\<lambda>i. map (\<lambda>j. At img ((x * boxSize) + i) ((y * boxSize) + j)) [0..boxSize - 1])
          [i..boxSize - 1]))"
proof (induction img boxSize x y i acc rule: iloop.induct)
  case (1 img boxSize x y i acc)
  show ?case
  proof (cases "i < boxSize")
    case True
    then have "[i..boxSize - 1] = i # [i + 1..boxSize - 1]"
      by (simp add: upto_rec1)
    with True 1 show ?thesis
      by (subst iloop.simps) (simp add: jloop_foldl)
  next
    case False
    then show ?thesis by (subst iloop.simps) simp
  qed
qed

lemma iloop_pixels: "iloop img boxSize x y 0 acc = foldl add_rgb acc (pixels img boxSize x y)"
  by (simp add: iloop_foldl pixels_def)

lemma foldl_add_rgb:
  "foldl add_rgb (a, b, c) ps =
     (a + sum_list (map fst ps), b + sum_list (map (fst \<circ> snd) ps), c + sum_list (map (snd \<circ> snd) ps))"
  by (induction ps arbitrary: a b c) (auto simp: add_rgb_def ac_simps)

lemma length_pixels: "length (pixels img boxSize x y) = nat boxSize * nat boxSize"
  by (simp add: pixels_def length_concat comp_def sum_list_triv)

lemma yloop_ok:
  assumes "\<And>y'. y \<le> y' \<Longrightarrow> y' < l_heightSteps L \<Longrightarrow> region L x y' = Inr (f y')"
  shows "yloop L x y out = Inr (out @ List.map_filter f [y..l_heightSteps L - 1])"
  using assms
proof (induction L x y out rule: yloop.induct)
  case (1 L x y out)
  show ?case
  proof (cases "y < l_heightSteps L")
    case True
    then have u: "[y..l_heightSteps L - 1] = y # [y + 1..l_heightSteps L - 1]"
      by (simp add: upto_rec1)
    have r: "region L x y = Inr (f y)"
      using "1.prems" True by simp
    show ?thesis
    proof (cases "f y")
      case None
      with True r have "yloop L x y out = yloop L x (y + 1) out"
        by (subst yloop.simps) simp
      also have "\<dots> = Inr (out @ List.map_filter f [y + 1..l_heightSteps L - 1])"
        using True r None "1.prems" by (intro "1.IH"(1)) auto
      finally show ?thesis
        using None by (simp add: u)
    next
      case (Some c)
      with True r have "yloop L x y out = yloop L x (y + 1) (out @ [c])"
        by (subst yloop.simps) simp
      also have "\<dots> = Inr ((out @ [c]) @ List.map_filter f [y + 1..l_heightSteps L - 1])"
        using True r Some "1.prems" by (intro "1.IH"(2)) auto
      finally show ?thesis
        using Some by (simp add: u)
    qed
  next
    case False
    then show ?thesis
      by (subst yloop.simps) simp
  qed
qed

lemma xloop_ok:
  assumes "\<And>x' y'. x \<le> x' \<Longrightarrow> x' < l_widthSteps L \<Longrightarrow> 0 \<le> y' \<Longrightarrow> y' < l_heightSteps L
             \<Longrightarrow> region L x' y' = Inr (f x' y')"
  shows "xloop L x out =
           Inr (out @ concat (map (\<lambda>x. List.map_filter (f x) [0..l_heightSteps L - 1])
                                [x..l_widthSteps L - 1]))"
  using assms
proof (induction L x out rule: xloop.induct)
  case (1 L x out)
  show ?case
  proof (cases "x < l_widthSteps L")
    case True
    then have u: "[x..l_widthSteps L - 1] = x # [x + 1..l_widthSteps L - 1]"
      by (simp add: upto_rec1)
    have y: "yloop L x 0 out = Inr (out @ List.map_filter (f x) [0..l_heightSteps L - 1])"
      using "1.prems" True by (intro yloop_ok) auto
    with True have "xloop L x out =
        xloop L (x + 1) (out @ List.map_filter (f x) [0..l_heightSteps L - 1])"
      by (subst xloop.simps) simp
    also have "\<dots> = Inr ((out @ List.map_filter (f x) [0..l_heightSteps L - 1]) @
        concat (map (\<lambda>x. List.map_filter (f x) [0..l_heightSteps L - 1])
                  [x + 1..l_widthSteps L - 1]))"
      using True y "1.prems" by (intro "1.IH") auto
    finally show ?thesis
      by (simp add: u)
  next
    case False
    then show ?thesis
      by (subst xloop.simps) simp
  qed
qed

lemma map_filter_append: "List.map_filter f (xs @ ys) = List.map_filter f xs @ List.map_filter f ys"
  by (simp add: map_filter_def)

lemma map_filter_map: "List.map_filter f (map g xs) = List.map_filter (\<lambda>x. f (g x)) xs"
  by (induction xs) (simp_all split: option.splits)

lemma map_filter_cells:
  "concat (map (\<lambda>x. List.map_filter (f x) [0..hs - 1]) [0..ws - 1]) =
     List.map_filter (\<lambda>(x, y). f x y) (cells ws hs)"
proof -
  have "List.map_filter (\<lambda>(x, y). f x y) (concat (map (\<lambda>x. map (\<lambda>y. (x, y)) ys) xs)) =
        concat (map (\<lambda>x. List.map_filter (f x) ys) xs)" for xs ys
    by (induction xs) (simp_all add: map_filter_append map_filter_map)
  then show ?thesis
    by (simp add: cells_def)
qed

lemma yloop_panic:
  assumes "region L x y = Inl e" "y < l_heightSteps L"
  shows "yloop L x y out = Inl e"
  using assms by (subst yloop.simps) simp

lemma xloop_panic:
  assumes "region L x 0 = Inl e" "0 < l_heightSteps L" "x < l_widthSteps L"
  shows "xloop L x out = Inl e"
  using assms by (subst xloop.simps) (simp add: yloop_panic)

section \<open>The pipeline when no division panics\<close>

text \<open>\<^verbatim>\<open>uint32(boxSizeSquared)\<close> is zero exactly when \<^verbatim>\<open>boxSize\<close> is a multiple of 65536.
  For any other box size \<^verbatim>\<open>makeDots\<close> returns the dots of the boxes whose luma is below
  the threshold, in the order of the grid walk.\<close>

lemma uint32_int64: "(word_of_int (int64 n) :: u32) = word_of_int n"
  by (simp add: int64_def word_of_int_eq_iff take_bit_signed_take_bit)

lemma count_zero_iff: "(word_of_int (int64 (boxSize * boxSize)) :: u32) = 0 \<longleftrightarrow> 65536 dvd boxSize"
proof -
  have "(word_of_int (boxSize * boxSize) :: u32) = 0 \<longleftrightarrow> (2::int) ^ 32 dvd boxSize * boxSize"
    by (subst word_of_int_eq_0_iff) simp
  also have "\<dots> \<longleftrightarrow> ((2::int) ^ 16) ^ 2 dvd boxSize ^ 2"
    by (simp add: power2_eq_square)
  also have "\<dots> \<longleftrightarrow> (2::int) ^ 16 dvd boxSize"
    by (rule pow_divides_pow_iff) simp
  finally show ?thesis
    by (simp add: uint32_int64)
qed

lemma regionColor_boxColor:
  assumes "\<not> 65536 dvd boxSize"
  shows "regionColor img boxSize (int64 (boxSize * boxSize)) x y = Inr (boxColor img boxSize x y)"
  using assms
  by (simp add: regionColor_def boxColor_def count_zero_iff Let_def split: prod.splits)

lemma regionColor_panic:
  assumes "65536 dvd boxSize"
  shows "regionColor img boxSize (int64 (boxSize * boxSize)) x y = Inl DivideByZero"
  using assms
  by (simp add: regionColor_def count_zero_iff Let_def split: prod.splits)

lemma region_mkLocals:
  assumes "\<not> 65536 dvd boxSize"
  shows "region (mkLocals bt701 img boxSize thr color scale lumaArea) x y =
           Inr (if boxLuma bt701 img boxSize x y \<ge> thr then None
                else Some (dot (mkLocals bt701 img boxSize thr color scale lumaArea) x y
                             (boxColor img boxSize x y) (boxLuma bt701 img boxSize x y)))"
  using assms
  by (simp add: region_def mkLocals_def Let_def regionColor_boxColor boxLuma_def split: prod.splits)

lemma region_mkLocals_panic:
  assumes "65536 dvd boxSize"
  shows "region (mkLocals bt701 img boxSize thr color scale lumaArea) x y = Inl DivideByZero"
  using assms
  by (simp add: region_def mkLocals_def Let_def regionColor_panic)

lemma makeDots_ok:
  assumes "create_ok" "\<not> 65536 dvd boxSize"
  shows "makeDots bt701 create_ok img boxSize thr color bt709 fn scale lumaArea =
           Inr (map (\<lambda>(x, y). dot (mkLocals bt701 img boxSize thr color scale lumaArea) x y
                                (boxColor img boxSize x y) (boxLuma bt701 img boxSize x y))
                  (filter (\<lambda>(x, y). \<not> boxLuma bt701 img boxSize x y \<ge> thr)
                     (cells (quo (Dx img) boxSize) (quo (Dy img) boxSize))))"
proof -
  let ?L = "mkLocals bt701 img boxSize thr color scale lumaArea"
  let ?f = "\<lambda>x y. if boxLuma bt701 img boxSize x y \<ge> thr then None
                else Some (dot ?L x y (boxColor img boxSize x y) (boxLuma bt701 img boxSize x y))"
  have ws: "l_widthSteps ?L = quo (Dx img) boxSize" and hs: "l_heightSteps ?L = quo (Dy img) boxSize"
    by (simp_all add: mkLocals_def Let_def)
  have nz: "boxSize \<noteq> 0"
    using assms(2) by auto
  have "xloop ?L 0 [] = Inr ([] @ concat (map (\<lambda>x. List.map_filter (?f x) [0..l_heightSteps ?L - 1])
                                [0..l_widthSteps ?L - 1]))"
    by (rule xloop_ok) (rule region_mkLocals [OF assms(2)])
  also have "\<dots> = Inr (List.map_filter (\<lambda>(x, y). ?f x y)
                         (cells (quo (Dx img) boxSize) (quo (Dy img) boxSize)))"
    by (simp add: map_filter_cells ws hs)
  also have "List.map_filter (\<lambda>(x, y). ?f x y) (cells (quo (Dx img) boxSize) (quo (Dy img) boxSize)) =
      map (\<lambda>(x, y). dot ?L x y (boxColor img boxSize x y) (boxLuma bt701 img boxSize x y))
        (filter (\<lambda>(x, y). \<not> boxLuma bt701 img boxSize x y \<ge> thr)
           (cells (quo (Dx img) boxSize) (quo (Dy img) boxSize)))" for cs
    unfolding map_filter_def
    by (intro map_cong filter_cong refl) (auto split: prod.splits)
  finally show ?thesis
    using assms(1) nz by (simp add: makeDots_def)
qed

lemma int64_id: "- (2 ^ 63) \<le> n \<Longrightarrow> n < 2 ^ 63 \<Longrightarrow> int64 n = n"
  by (simp add: int64_def signed_take_bit_int_eq_self)



section \<open>Evaluations on the example images\<close>

lemma int_of_f64_of_int: "int_of_f64 (real_of_int n) = n"
  by (simp add: int_of_f64_def)

lemma black_sum: "\<forall>p\<in>set ps. p = (0, 0, 0) \<Longrightarrow> foldl add_rgb (0, 0, 0) ps = (0, 0, 0)"
  by (induction ps) (simp_all add: add_rgb_def)

lemma boxColor_black100: "boxColor black100 50 x y = (0, 0, 0)"
proof -
  have "\<forall>p\<in>set (pixels black100 50 x y). p = (0, 0, 0)"
    by (auto simp: pixels_def black100_def)
  then have "iloop black100 50 x y 0 (0, 0, 0) = (0, 0, 0)"
    by (simp add: iloop_pixels black_sum)
  then show ?thesis
    by (simp add: boxColor_def avg_def)
qed

lemma boxLuma_black100: "boxLuma bt701 black100 50 x y = 0"
  by (simp add: boxLuma_def boxColor_black100 lumaBT601_def lumaBT709_def)

lemma cells_2_2: "cells 2 2 = [(0, 0), (0, 1), (1, 0), (1, 1)]"
  by (simp add: cells_def upto_rec1)

lemma quo_100_50: "quo 100 50 = 2" "quo 50 2 = 25"
  by (simp_all add: quo_def int64_def signed_divide_int_def)

section \<open>The black image\<close>

text \<open>
  C8. On the solid black image of 100 by 100 pixels with box size 50, a threshold above 0
  and the linear policy, the grid has the four boxes \<open>(0,0)\<close>, \<open>(0,1)\<close>, \<open>(1,0)\<close>, \<open>(1,1)\<close>;
  each has the average colour \<open>(0,0,0)\<close> and the luma 0, and \<^verbatim>\<open>makeDots\<close> draws for each a
  circle of radius \<open>25 * scale\<close>, filled \<^verbatim>\<open>#000000\<close> in colour mode and \<^verbatim>\<open>black\<close>
  otherwise (for a scale whose product with 25 a \<^verbatim>\<open>float64\<close> represents exactly).
\<close>

theorem black_image_scenario:
  assumes "0 < thr" "\<bar>25 * scale\<bar> \<le> 2 ^ 53"
  shows "cells (quo (Dx black100) 50) (quo (Dy black100) 50) = [(0, 0), (0, 1), (1, 0), (1, 1)] \<and>
         boxColor black100 50 x y = (0, 0, 0) \<and>
         boxLuma bt701 black100 50 x y = 0 \<and>
         makeDots bt701 True black100 50 thr color bt709 fn scale False =
           Inr (map (\<lambda>(cx, cy).
                       \<lparr>circle_x = cx * scale, circle_y = cy * scale, circle_r = Some (25 * scale),
                        circle_style = (if color then ''fill:#000000;stroke:none''
                                        else ''fill:black;stroke:none'')\<rparr>)
                  [(25, 25), (25, 75), (75, 25), (75, 75)])"
proof -
  have d: "Dx black100 = 100" "Dy black100 = 100"
    by (simp_all add: black100_def)
  have s: "int64 (25 * scale) = 25 * scale" "int64 (75 * scale) = 75 * scale"
    using assms(2) by (auto intro!: int64_id)
  have nd: "\<not> 65536 dvd (50::int)"
    by simp
  have f: "int_of_f64 (25 * real_of_int scale) = 25 * scale"
    using int_of_f64_of_int [of "25 * scale"] by simp
  have "makeDots bt701 True black100 50 thr color bt709 fn scale False =
           Inr (map (\<lambda>(cx, cy).
                       \<lparr>circle_x = cx * scale, circle_y = cy * scale, circle_r = Some (25 * scale),
                        circle_style = (if color then ''fill:#000000;stroke:none''
                                        else ''fill:black;stroke:none'')\<rparr>)
                  [(25, 25), (25, 75), (75, 25), (75, 75)])"
    using assms(1)
    by (simp add: makeDots_ok [OF TrueI nd] d quo_100_50 cells_2_2 boxLuma_black100
          boxColor_black100 dot_def mkLocals_def radius_def s f
          fill_style_def hex02_def hex.simps hex_digit_def)
  then show ?thesis
    by (simp add: d quo_100_50 cells_2_2 boxColor_black100 boxLuma_black100)
qed

theorem black_image_scenario_witness:
  "(0::real) < 1 \<and> \<bar>25 * (2::int)\<bar> \<le> 2 ^ 53 \<and>
   makeDots False True black100 50 1 True False ''out.svg'' 2 False =
     Inr [\<lparr>circle_x = 50, circle_y = 50, circle_r = Some 50,
           circle_style = ''fill:#000000;stroke:none''\<rparr>,
          \<lparr>circle_x = 50, circle_y = 150, circle_r = Some 50,
           circle_style = ''fill:#000000;stroke:none''\<rparr>,
          \<lparr>circle_x = 150, circle_y = 50, circle_r = Some 50,
           circle_style = ''fill:#000000;stroke:none''\<rparr>,
          \<lparr>circle_x = 150, circle_y = 150, circle_r = Some 50,
           circle_style = ''fill:#000000;stroke:none''\<rparr>]"
proof -
  have h: "(0::real) < 1" "\<bar>25 * (2::int)\<bar> \<le> 2 ^ 53"
    by simp_all
  from black_image_scenario [OF h, of 0 0 False True False "''out.svg''"] h show ?thesis
    by simp
qed

section \<open>Degenerate box sizes\<close>

text \<open>A negative box size, or one above the smaller dimension of the image, leaves the grid
  without boxes: \<^verbatim>\<open>makeDots\<close> returns with no circle drawn.\<close>

lemma quo_nonpos:
  assumes "0 \<le> w" "w < 2 ^ 63" "b < 0 \<or> w < b"
  shows "quo w b \<le> 0"
proof -
  have "- w \<le> w sdiv b \<and> w sdiv b \<le> 0"
  proof (cases "b < 0")
    case True
    have "w div - b \<le> w div 1"
      using assms(1) True by (intro zdiv_mono2) simp_all
    then have "w div - b \<le> w"
      by simp
    moreover have "0 \<le> w div - b"
      using assms(1) True by (simp add: pos_imp_zdiv_nonneg_iff)
    ultimately show ?thesis
      using True assms(1) by (cases "w = 0") (simp_all add: signed_divide_int_def sgn_if)
  next
    case False
    with assms(3) have "w < b" by simp
    then show ?thesis
      using assms(1) by (simp add: signed_divide_int_def sgn_if div_pos_pos_trivial)
  qed
  then have "int64 (w sdiv b) = w sdiv b \<and> w sdiv b \<le> 0"
    using assms(1,2) by (intro conjI int64_id) linarith+
  then show ?thesis
    by (simp add: quo_def)
qed

lemma xloop_empty_grid:
  assumes "l_widthSteps L \<le> 0 \<or> l_heightSteps L \<le> 0"
  shows "xloop L 0 [] = Inr []"
proof -
  have "xloop L 0 [] =
      Inr ([] @ concat (map (\<lambda>x. List.map_filter ((\<lambda>x y. None) x) [0..l_heightSteps L - 1])
                          [0..l_widthSteps L - 1]))"
  proof (cases "l_widthSteps L \<le> 0")
    case True
    then show ?thesis
      by (subst xloop.simps) simp
  next
    case False
    with assms have "l_heightSteps L \<le> 0" by simp
    then show ?thesis
      by (intro xloop_ok) simp
  qed
  then show ?thesis
    by (simp add: map_filter_def)
qed

lemma makeDots_degenerate_box:
  assumes "create_ok"
    and "0 \<le> Dx img" "Dx img < 2 ^ 63" "0 \<le> Dy img" "Dy img < 2 ^ 63"
    and "boxSize < 0 \<or> min (Dx img) (Dy img) < boxSize"
  shows "makeDots bt701 create_ok img boxSize thr color bt709 fn scale lumaArea = Inr []"
proof -
  let ?L = "mkLocals bt701 img boxSize thr color scale lumaArea"
  have nz: "boxSize \<noteq> 0"
    using assms(2,4,6) by auto
  have "quo (Dx img) boxSize \<le> 0 \<or> quo (Dy img) boxSize \<le> 0"
  proof (cases "boxSize < 0 \<or> Dx img < boxSize")
    case True
    with assms(2,3) have "quo (Dx img) boxSize \<le> 0"
      by (rule quo_nonpos)
    then show ?thesis
      by simp
  next
    case False
    with assms(6) have "boxSize < 0 \<or> Dy img < boxSize"
      by auto
    with assms(4,5) have "quo (Dy img) boxSize \<le> 0"
      by (rule quo_nonpos)
    then show ?thesis
      by simp
  qed
  then have "l_widthSteps ?L \<le> 0 \<or> l_heightSteps ?L \<le> 0"
    by (simp add: mkLocals_def Let_def)
  then have "xloop ?L 0 [] = Inr []"
    by (rule xloop_empty_grid)
  then show ?thesis
    using assms(1) nz by (simp add: makeDots_def)
qed

text \<open>A non-zero multiple of 65536 as box size, on an image with at least one box, makes the
  division by \<^verbatim>\<open>uint32(boxSizeSquared)\<close> of line 129 panic at the first box.\<close>

lemma makeDots_count_panic:
  assumes "create_ok" "boxSize \<noteq> 0" "65536 dvd boxSize"
    and "0 < quo (Dx img) boxSize" "0 < quo (Dy img) boxSize"
  shows "makeDots bt701 create_ok img boxSize thr color bt709 fn scale lumaArea = Inl DivideByZero"
proof -
  let ?L = "mkLocals bt701 img boxSize thr color scale lumaArea"
  have "region ?L 0 0 = Inl DivideByZero"
    using assms(3) by (rule region_mkLocals_panic)
  moreover have "0 < l_heightSteps ?L" "0 < l_widthSteps ?L"
    using assms(4,5) by (simp_all add: mkLocals_def Let_def)
  ultimately have "xloop ?L 0 [] = Inl DivideByZero"
    by (rule xloop_panic)
  then show ?thesis
    using assms(1,2) by (simp add: makeDots_def)
qed

text \<open>
  C4. For the box size 0 the division \<^verbatim>\<open>width / boxSize\<close> of line 99 panics, whatever
  the image: \<^verbatim>\<open>makeDots\<close> does not return an empty drawing.
\<close>

theorem divide_by_zero_box:
  "makeDots bt701 True img 0 thr color bt709 fn scale lumaArea = Inl DivideByZero"
  by (simp add: makeDots_def)

section \<open>Area policy against linear policy\<close>

lemma pi_ge_3: "3 \<le> pi"
  using sin_x_le_x [of "pi / 6"] by (simp add: sin_30)

lemma less_sqrt_iff: "0 \<le> x \<Longrightarrow> x < sqrt y \<longleftrightarrow> x\<^sup>2 < y" for x y :: real
  using real_sqrt_less_iff [of "x\<^sup>2" y] by simp

lemma area_gt_linear_iff:
  fixes t k :: real
  assumes "0 < t" "0 < k"
  shows "t * k < sqrt (t / pi) * 1.7 * k \<longleftrightarrow> t < 2.89 / pi"
proof -
  have "t * k < sqrt (t / pi) * 1.7 * k \<longleftrightarrow> t / 1.7 < sqrt (t / pi)"
    using assms(2) by (simp add: field_simps)
  also have "\<dots> \<longleftrightarrow> (t / 1.7)\<^sup>2 < t / pi"
    using assms(1) by (intro less_sqrt_iff) simp
  also have "\<dots> \<longleftrightarrow> t * (t * pi) < t * 2.89"
    by (simp add: field_simps power2_eq_square)
  also have "\<dots> \<longleftrightarrow> t * pi < 2.89"
    using assms(1) by (simp only: mult_less_cancel_left_pos)
  also have "\<dots> \<longleftrightarrow> t < 2.89 / pi"
    by (simp add: field_simps)
  finally show ?thesis .
qed

lemma int_of_f64_mono: "0 \<le> l \<Longrightarrow> l \<le> a \<Longrightarrow> int_of_f64 l \<le> int_of_f64 a"
  by (simp add: int_of_f64_def floor_mono)

text \<open>
  C3. On a black box (luma 0) with \<open>boxHalf = 25\<close> and \<open>scale = 1\<close> the area policy gives
  the radius \<open>sqrt (1 / pi) * 1.7 * 25\<close>, below the 25 of the linear policy, before and
  after truncation: the area radius is not always the larger one.
\<close>

theorem area_smaller_on_black:
  "radius False 0 25 1 = Some 25 \<and>
   radius True 0 25 1 = Some (sqrt (1 / pi) * 1.7 * 25) \<and>
   sqrt (1 / pi) * 1.7 * 25 < 25 \<and>
   int_of_f64 (sqrt (1 / pi) * 1.7 * 25) < int_of_f64 25"
proof -
  have "1 / pi < (10 / 17)\<^sup>2"
    using pi_ge_3 by (simp add: field_simps power2_eq_square)
  then have "sqrt (1 / pi) < 10 / 17"
    by (intro real_less_lsqrt) simp_all
  then have lt: "sqrt (1 / pi) * 1.7 * 25 < 25"
    by simp
  have "0 \<le> sqrt (1 / pi) * 1.7 * 25"
    by simp
  with lt have "int_of_f64 (sqrt (1 / pi) * 1.7 * 25) < 25"
    by (simp add: int_of_f64_def floor_less_iff)
  moreover have "int_of_f64 25 = 25"
    by (simp add: int_of_f64_def)
  moreover have "radius False 0 25 1 = Some 25" "radius True 0 25 1 = Some (sqrt (1 / pi) * 1.7 * 25)"
    by (simp_all add: radius_def sqrt_f64_def int64_def)
  ultimately show ?thesis
    using lt by simp
qed

text \<open>
  C3, as amended. For a luma below 1, a positive \<open>boxHalf\<close> and a positive \<open>scale\<close> whose
  product fits an \<^verbatim>\<open>int\<close>, the radius of the area policy exceeds that of the linear policy
  (both before truncation) exactly when \<open>1 - luma < 2.89 / pi\<close>; then the truncated area
  radius is at least the truncated linear one. At luma 1 both policies give the radius 0.
\<close>

theorem area_versus_linear:
  assumes "luma < 1" "0 < boxHalf" "0 < scale" "boxHalf * scale < 2 ^ 63"
  shows "(\<exists>a l. radius True luma boxHalf scale = Some a \<and>
                radius False luma boxHalf scale = Some l \<and>
                (l < a \<longleftrightarrow> 1 - luma < 2.89 / pi) \<and>
                (l < a \<longrightarrow> int_of_f64 l \<le> int_of_f64 a)) \<and>
         radius True 1 boxHalf scale = Some 0 \<and> radius False 1 boxHalf scale = Some 0"
proof -
  let ?k = "real_of_int (boxHalf * scale)"
  have pos: "0 < boxHalf * scale"
    using assms(2,3) by simp
  then have k: "int64 (boxHalf * scale) = boxHalf * scale"
    using assms(4) by (intro int64_id) simp_all
  have kpos: "0 < ?k"
    using pos by (simp only: of_int_0_less_iff)
  have t: "0 < 1 - luma"
    using assms(1) by simp
  have a: "radius True luma boxHalf scale = Some (sqrt ((1 - luma) / pi) * 1.7 * ?k)"
    using t by (simp add: radius_def sqrt_f64_def k not_less)
  have l: "radius False luma boxHalf scale = Some ((1 - luma) * ?k)"
    by (simp add: radius_def k)
  have iff: "(1 - luma) * ?k < sqrt ((1 - luma) / pi) * 1.7 * ?k \<longleftrightarrow> 1 - luma < 2.89 / pi"
    by (rule area_gt_linear_iff [OF t kpos])
  have mono: "(1 - luma) * ?k < sqrt ((1 - luma) / pi) * 1.7 * ?k \<longrightarrow>
      int_of_f64 ((1 - luma) * ?k) \<le> int_of_f64 (sqrt ((1 - luma) / pi) * 1.7 * ?k)"
    using t kpos by (auto intro!: int_of_f64_mono)
  have one: "radius True 1 boxHalf scale = Some 0" "radius False 1 boxHalf scale = Some 0"
    by (simp_all add: radius_def sqrt_f64_def)
  from a l iff mono one show ?thesis
    by blast
qed

theorem area_versus_linear_witness:
  "(1 / 2 :: real) < 1 \<and> (0::int) < 25 \<and> (0::int) < 1 \<and> (25::int) * 1 < 2 ^ 63 \<and>
   (\<exists>a l. radius True (1 / 2) 25 1 = Some a \<and> radius False (1 / 2) 25 1 = Some l \<and> l < a)"
proof -
  have h: "(1 / 2 :: real) < 1" "(0::int) < 25" "(0::int) < 1" "(25::int) * 1 < 2 ^ 63"
    by simp_all
  have "(1 - 1 / 2 :: real) < 2.89 / pi"
    using pi_less_4 by (simp add: field_simps)
  with area_versus_linear [OF h] h show ?thesis
    by blast
qed

section \<open>The average colour\<close>

text \<open>As long as the channel sums fit 32 bits, which a box size of at most 256 ensures for
  16-bit channel values, the colour computed is the average of the specification: dividing
  by the pixel count and then by 257 gives what dividing by 257 and then by the pixel
  count gives.\<close>

lemma unat_sum_list:
  "sum_list (map unat xs) < 2 ^ 32 \<Longrightarrow> unat (sum_list xs) = sum_list (map unat xs)"
  for xs :: "u32 list"
proof (induction xs)
  case Nil
  then show ?case by simp
next
  case (Cons x xs)
  then have "unat (sum_list xs) = sum_list (map unat xs)"
    by simp
  moreover from Cons.prems have "unat x + sum_list (map unat xs) < 2 ^ 32"
    by simp
  ultimately have "unat (x + sum_list xs) = unat x + unat (sum_list xs)"
    by (simp add: unat_add_lem [THEN iffD1])
  with \<open>unat (sum_list xs) = sum_list (map unat xs)\<close> show ?case
    by simp
qed

lemma sum_list_bound: "\<forall>x\<in>set xs. f x \<le> b \<Longrightarrow> sum_list (map f xs) \<le> length xs * b"
  for b :: nat
  by (induction xs) (auto simp: algebra_simps)

lemma avg_no_overflow:
  assumes "sum_list (map unat xs) < 2 ^ 32" "0 < n" "n < 2 ^ 32"
  shows "avg (sum_list xs) (word_of_nat n) = word_of_nat ((sum_list (map unat xs) div 257) div n)"
proof -
  have n: "unat (word_of_nat n :: u32) = n"
    using assms(3) by (simp add: unat_of_nat)
  have "unat (avg (sum_list xs) (word_of_nat n)) = (sum_list (map unat xs) div n) div 257"
    by (simp add: avg_def unat_div n unat_sum_list [OF assms(1)])
  also have "\<dots> = (sum_list (map unat xs) div 257) div n"
    by (simp add: div_mult2_eq [symmetric] mult.commute)
  finally have "word_of_nat (unat (avg (sum_list xs) (word_of_nat n))) =
      (word_of_nat ((sum_list (map unat xs) div 257) div n) :: u32)"
    by simp
  then show ?thesis
    by simp
qed

lemma boxColor_meets_spec:
  assumes "0 < boxSize" "boxSize \<le> 256"
    and "\<forall>p\<in>set (pixels img boxSize x y).
           unat (red p) \<le> 65535 \<and> unat (green p) \<le> 65535 \<and> unat (blue p) \<le> 65535"
  shows "boxColor img boxSize x y =
           (word_of_nat (channelAverage_spec red img boxSize x y),
            word_of_nat (channelAverage_spec green img boxSize x y),
            word_of_nat (channelAverage_spec blue img boxSize x y))"
proof -
  let ?ps = "pixels img boxSize x y"
  let ?n = "nat (boxSize * boxSize)"
  have "nat boxSize * nat boxSize \<le> 256 * 256"
    using assms(1,2) by (intro mult_mono) simp_all
  then have len: "length ?ps \<le> 65536"
    by (simp add: length_pixels)
  have bound: "sum_list (map unat (map ch ?ps)) < 2 ^ 32"
    if "\<forall>p\<in>set ?ps. unat (ch p) \<le> 65535" for ch :: "rgb \<Rightarrow> u32"
  proof -
    have "sum_list (map (\<lambda>p. unat (ch p)) ?ps) \<le> length ?ps * 65535"
      using that by (rule sum_list_bound)
    also have "\<dots> \<le> 65536 * 65535"
      using len by simp
    finally show ?thesis
      by (simp add: comp_def)
  qed
  have npos: "0 < ?n"
    using assms(1) by simp
  have "boxSize * boxSize \<le> 256 * 256"
    using assms(1,2) by (intro mult_mono) simp_all
  then have nlt: "?n < 2 ^ 32"
    by simp
  have cnt: "(word_of_int (int64 (boxSize * boxSize)) :: u32) = word_of_nat ?n"
    unfolding uint32_int64 using assms(1) by (intro word_of_int_nat) simp
  have ch: "avg (sum_list (map ch ?ps)) (word_of_nat ?n) =
              word_of_nat (channelAverage_spec ch img boxSize x y)"
    if "\<forall>p\<in>set ?ps. unat (ch p) \<le> 65535" for ch
    using avg_no_overflow [OF bound [OF that] npos nlt]
    by (simp add: channelAverage_spec_def comp_def)
  have il: "iloop img boxSize x y 0 (0, 0, 0) =
          (sum_list (map red ?ps), sum_list (map green ?ps), sum_list (map blue ?ps))"
    by (simp add: iloop_pixels foldl_add_rgb red_def green_def blue_def comp_def cong: map_cong)
  have r: "avg (sum_list (map red ?ps)) (word_of_nat ?n) =
             word_of_nat (channelAverage_spec red img boxSize x y)"
    using assms(3) by (intro ch) simp
  have g: "avg (sum_list (map green ?ps)) (word_of_nat ?n) =
             word_of_nat (channelAverage_spec green img boxSize x y)"
    using assms(3) by (intro ch) simp
  have b: "avg (sum_list (map blue ?ps)) (word_of_nat ?n) =
             word_of_nat (channelAverage_spec blue img boxSize x y)"
    using assms(3) by (intro ch) simp
  show ?thesis
    by (simp only: boxColor_def il cnt Let_def prod.case r g b)
qed

text \<open>The solid white image of 257 by 257 pixels, as one box.\<close>

lemma sum_list_const: "\<forall>p\<in>set ps. f p = c \<Longrightarrow> sum_list (map f ps) = of_nat (length ps) * c"
  for c :: "'a::semiring_1"
  by (induction ps) (simp_all add: algebra_simps)

lemma pixels_white257: "p \<in> set (pixels white257 257 x y) \<Longrightarrow> p = (0xffff, 0xffff, 0xffff)"
  by (auto simp: pixels_def white257_def)

lemma iloop_white257: "iloop white257 257 0 0 0 (0, 0, 0) = (33553919, 33553919, 33553919)"
proof -
  let ?ps = "pixels white257 257 0 0"
  have len: "length ?ps = 66049"
    by (simp add: length_pixels)
  have "sum_list (map fst ?ps) = of_nat (length ?ps) * (0xffff :: u32)"
    by (rule sum_list_const) (auto dest: pixels_white257)
  moreover have "sum_list (map (fst \<circ> snd) ?ps) = of_nat (length ?ps) * (0xffff :: u32)"
    by (rule sum_list_const) (auto dest: pixels_white257)
  moreover have "sum_list (map (snd \<circ> snd) ?ps) = of_nat (length ?ps) * (0xffff :: u32)"
    by (rule sum_list_const) (auto dest: pixels_white257)
  ultimately show ?thesis
    by (simp add: iloop_pixels foldl_add_rgb len)
qed

lemma boxColor_white257: "boxColor white257 257 0 0 = (1, 1, 1)"
  by (simp add: boxColor_def iloop_white257 uint32_int64 avg_def)

lemma channelAverage_spec_white257:
  "channelAverage_spec red white257 257 0 0 = 255"
  "channelAverage_spec green white257 257 0 0 = 255"
  "channelAverage_spec blue white257 257 0 0 = 255"
proof -
  let ?ps = "pixels white257 257 0 0"
  have len: "length ?ps = 66049"
    by (simp add: length_pixels)
  have "sum_list (map (\<lambda>p. unat (ch p)) ?ps) = of_nat (length ?ps) * 65535"
    if "ch = red \<or> ch = green \<or> ch = blue" for ch
    using that by (intro sum_list_const) (auto dest!: pixels_white257 simp: red_def green_def blue_def)
  then show "channelAverage_spec red white257 257 0 0 = 255"
    "channelAverage_spec green white257 257 0 0 = 255"
    "channelAverage_spec blue white257 257 0 0 = 255"
    by (simp_all add: channelAverage_spec_def len)
qed

lemma cells_1_1: "cells 1 1 = [(0, 0)]"
  by (simp add: cells_def upto_rec1)

lemma quo_257: "quo 257 257 = 1" "quo 257 2 = 128"
  by (simp_all add: quo_def int64_def signed_divide_int_def)

lemma boxLuma_white257: "boxLuma False white257 257 0 0 = 103 / 25500"
  by (simp add: boxLuma_def boxColor_white257 lumaBT601_def)

text \<open>
  C2. On the white box of 257 by 257 pixels each channel sum, 66049 times 65535, exceeds
  32 bits and wraps to 33553919: the colour computed is \<open>(1, 1, 1)\<close>, where summing, dividing
  by 257 and dividing by the pixel count gives 255 for each channel. \<^verbatim>\<open>makeDots\<close> then draws
  a near-black dot of radius 127 for a white image.
\<close>

theorem white_box_overflow:
  "boxColor white257 257 0 0 = (1, 1, 1) \<and>
   channelAverage_spec red white257 257 0 0 = 255 \<and>
   channelAverage_spec green white257 257 0 0 = 255 \<and>
   channelAverage_spec blue white257 257 0 0 = 255 \<and>
   makeDots False True white257 257 1 True False ''out.svg'' 1 False =
     Inr [\<lparr>circle_x = 128, circle_y = 128, circle_r = Some 127,
           circle_style = ''fill:#010101;stroke:none''\<rparr>]"
proof -
  have d: "Dx white257 = 257" "Dy white257 = 257"
    by (simp_all add: white257_def)
  have nd: "\<not> 65536 dvd (257::int)"
    by simp
  have "makeDots False True white257 257 1 True False ''out.svg'' 1 False =
     Inr [\<lparr>circle_x = 128, circle_y = 128, circle_r = Some 127,
           circle_style = ''fill:#010101;stroke:none''\<rparr>]"
    by (simp add: makeDots_ok [OF TrueI nd] d quo_257 cells_1_1 boxLuma_white257
          boxColor_white257 dot_def mkLocals_def radius_def int64_def int_of_f64_def
          fill_style_def hex02_def hex.simps hex_digit_def)
  then show ?thesis
    by (simp add: boxColor_white257 channelAverage_spec_white257)
qed

section \<open>The pipeline with rounded operations\<close>

text \<open>The grid loops with the rounded operations collect the circles as the loops above do,
  and the rounding of a number that is not negative is not negative.\<close>

lemma yloop_f64_ok:
  assumes "\<And>y'. y \<le> y' \<Longrightarrow> y' < l_heightSteps L \<Longrightarrow> region_f64 L x y' = Inr (f y')"
  shows "yloop_f64 L x y out = Inr (out @ List.map_filter f [y..l_heightSteps L - 1])"
  using assms
proof (induction L x y out rule: yloop_f64.induct)
  case (1 L x y out)
  show ?case
  proof (cases "y < l_heightSteps L")
    case True
    then have u: "[y..l_heightSteps L - 1] = y # [y + 1..l_heightSteps L - 1]"
      by (simp add: upto_rec1)
    have r: "region_f64 L x y = Inr (f y)"
      using "1.prems" True by simp
    show ?thesis
    proof (cases "f y")
      case None
      with True r have "yloop_f64 L x y out = yloop_f64 L x (y + 1) out"
        by (subst yloop_f64.simps) simp
      also have "\<dots> = Inr (out @ List.map_filter f [y + 1..l_heightSteps L - 1])"
        using True r None "1.prems" by (intro "1.IH"(1)) auto
      finally show ?thesis
        using None by (simp add: u)
    next
      case (Some c)
      with True r have "yloop_f64 L x y out = yloop_f64 L x (y + 1) (out @ [c])"
        by (subst yloop_f64.simps) simp
      also have "\<dots> = Inr ((out @ [c]) @ List.map_filter f [y + 1..l_heightSteps L - 1])"
        using True r Some "1.prems" by (intro "1.IH"(2)) auto
      finally show ?thesis
        using Some by (simp add: u)
    qed
  next
    case False
    then show ?thesis
      by (subst yloop_f64.simps) simp
  qed
qed

lemma xloop_f64_ok:
  assumes "\<And>x' y'. x \<le> x' \<Longrightarrow> x' < l_widthSteps L \<Longrightarrow> 0 \<le> y' \<Longrightarrow> y' < l_heightSteps L
             \<Longrightarrow> region_f64 L x' y' = Inr (f x' y')"
  shows "xloop_f64 L x out =
           Inr (out @ concat (map (\<lambda>x. List.map_filter (f x) [0..l_heightSteps L - 1])
                                [x..l_widthSteps L - 1]))"
  using assms
proof (induction L x out rule: xloop_f64.induct)
  case (1 L x out)
  show ?case
  proof (cases "x < l_widthSteps L")
    case True
    then have u: "[x..l_widthSteps L - 1] = x # [x + 1..l_widthSteps L - 1]"
      by (simp add: upto_rec1)
    have y: "yloop_f64 L x 0 out = Inr (out @ List.map_filter (f x) [0..l_heightSteps L - 1])"
      using "1.prems" True by (intro yloop_f64_ok) auto
    with True have "xloop_f64 L x out =
        xloop_f64 L (x + 1) (out @ List.map_filter (f x) [0..l_heightSteps L - 1])"
      by (subst xloop_f64.simps) simp
    also have "\<dots> = Inr ((out @ List.map_filter (f x) [0..l_heightSteps L - 1]) @
        concat (map (\<lambda>x. List.map_filter (f x) [0..l_heightSteps L - 1])
                  [x + 1..l_widthSteps L - 1]))"
      using True y "1.prems" by (intro "1.IH") auto
    finally show ?thesis
      by (simp add: u)
  next
    case False
    then show ?thesis
      by (subst xloop_f64.simps) simp
  qed
qed

lemma region_f64_mkLocals:
  assumes "\<not> 65536 dvd boxSize"
  shows "region_f64 (mkLocals_f64 bt701 img boxSize thr color scale lumaArea) x y =
           Inr (if boxLuma_f64 bt701 img boxSize x y \<ge> thr then None
                else Some (dot_f64 (mkLocals_f64 bt701 img boxSize thr color scale lumaArea) x y
                             (boxColor img boxSize x y) (boxLuma_f64 bt701 img boxSize x y)))"
  using assms
  by (simp add: region_f64_def mkLocals_f64_def Let_def regionColor_boxColor boxLuma_f64_def
        split: prod.splits)

lemma makeDots_f64_ok:
  assumes "create_ok" "\<not> 65536 dvd boxSize"
  shows "makeDots_f64 bt701 create_ok img boxSize thr color bt709 fn scale lumaArea =
           Inr (map (\<lambda>(x, y). dot_f64 (mkLocals_f64 bt701 img boxSize thr color scale lumaArea) x y
                                (boxColor img boxSize x y) (boxLuma_f64 bt701 img boxSize x y))
                  (filter (\<lambda>(x, y). \<not> boxLuma_f64 bt701 img boxSize x y \<ge> thr)
                     (cells (quo (Dx img) boxSize) (quo (Dy img) boxSize))))"
proof -
  let ?L = "mkLocals_f64 bt701 img boxSize thr color scale lumaArea"
  let ?f = "\<lambda>x y. if boxLuma_f64 bt701 img boxSize x y \<ge> thr then None
                else Some (dot_f64 ?L x y (boxColor img boxSize x y)
                             (boxLuma_f64 bt701 img boxSize x y))"
  have ws: "l_widthSteps ?L = quo (Dx img) boxSize"
    and hs: "l_heightSteps ?L = quo (Dy img) boxSize"
    by (simp_all add: mkLocals_f64_def Let_def)
  have nz: "boxSize \<noteq> 0"
    using assms(2) by auto
  have "xloop_f64 ?L 0 [] =
      Inr ([] @ concat (map (\<lambda>x. List.map_filter (?f x) [0..l_heightSteps ?L - 1])
                          [0..l_widthSteps ?L - 1]))"
    by (rule xloop_f64_ok) (rule region_f64_mkLocals [OF assms(2)])
  also have "\<dots> = Inr (List.map_filter (\<lambda>(x, y). ?f x y)
                         (cells (quo (Dx img) boxSize) (quo (Dy img) boxSize)))"
    by (simp add: map_filter_cells ws hs)
  also have "List.map_filter (\<lambda>(x, y). ?f x y)
        (cells (quo (Dx img) boxSize) (quo (Dy img) boxSize)) =
      map (\<lambda>(x, y). dot_f64 ?L x y (boxColor img boxSize x y) (boxLuma_f64 bt701 img boxSize x y))
        (filter (\<lambda>(x, y). \<not> boxLuma_f64 bt701 img boxSize x y \<ge> thr)
           (cells (quo (Dx img) boxSize) (quo (Dy img) boxSize)))"
    unfolding map_filter_def
    by (intro map_cong filter_cong refl) (auto split: prod.splits)
  finally show ?thesis
    using assms(1) nz by (simp add: makeDots_f64_def)
qed

lemma pow2_pos: "0 < pow2 e"
  by (simp add: pow2_def)

lemma round_even_nonneg: "0 \<le> q \<Longrightarrow> 0 \<le> round_even q"
  by (simp add: round_even_def Let_def)

lemma rnd64_nonneg: "0 \<le> x \<Longrightarrow> 0 \<le> rnd64 x"
  by (auto simp: rnd64_def Let_def sgn_if intro!: mult_nonneg_nonneg round_even_nonneg
        divide_nonneg_pos pow2_pos less_imp_le [OF pow2_pos])

lemma lumaBT709_f64_nonneg: "0 \<le> lumaBT709_f64 r g b"
  unfolding lumaBT709_f64_def fdiv_def fadd_def fmul_def
  by (intro rnd64_nonneg divide_nonneg_nonneg add_nonneg_nonneg mult_nonneg_nonneg
        of_nat_0_le_iff) simp_all

lemma lumaBT601_f64_nonneg: "0 \<le> lumaBT601_f64 r g b"
  unfolding lumaBT601_f64_def fdiv_def fadd_def fmul_def
  by (intro rnd64_nonneg divide_nonneg_nonneg add_nonneg_nonneg mult_nonneg_nonneg
        of_nat_0_le_iff) simp_all

lemma boxLuma_f64_nonneg: "0 \<le> boxLuma_f64 bt701 img boxSize x y"
  by (simp add: boxLuma_f64_def lumaBT601_f64_nonneg lumaBT709_f64_nonneg split: prod.splits)

subsection \<open>Evaluations\<close>

text \<open>The rounded operations on the colours of a few images of one colour.\<close>

lemmas f64_eval =
  rnd64_def expo.simps pow2_def round_even_def fadd_def fsub_def fmul_def fdiv_def
  f64_of_int_def int_f64_def Let_def

lemma rnd64_examples:
  "rnd64 0.1 = 3602879701896397 / 36028797018963968"
  "rnd64 (- (1 / 3)) = - (6004799503160661 / 18014398509481984)"
  "rnd64 (2 ^ 53 + 1) = 2 ^ 53"
  "rnd64 (2 ^ 53 + 3) = 2 ^ 53 + 4"
  "f64_of_int (2 ^ 63 - 1) = 2 ^ 63"
  "pi_f64 = 884279719003555 / 281474976710656"
  by (simp_all add: pi_f64_def f64_eval)

lemma pixels_uniform: "p \<in> set (pixels (uniform w h c) boxSize x y) \<Longrightarrow> p = c"
  by (auto simp: pixels_def uniform_def split: if_splits)

lemma iloop_uniform:
  "iloop (uniform w h (r, g, b)) boxSize x y 0 (0, 0, 0) =
     (of_nat (nat boxSize * nat boxSize) * r, of_nat (nat boxSize * nat boxSize) * g,
      of_nat (nat boxSize * nat boxSize) * b)"
proof -
  let ?ps = "pixels (uniform w h (r, g, b)) boxSize x y"
  have "sum_list (map fst ?ps) = of_nat (length ?ps) * r"
    by (rule sum_list_const) (auto dest: pixels_uniform)
  moreover have "sum_list (map (fst \<circ> snd) ?ps) = of_nat (length ?ps) * g"
    by (rule sum_list_const) (auto dest: pixels_uniform)
  moreover have "sum_list (map (snd \<circ> snd) ?ps) = of_nat (length ?ps) * b"
    by (rule sum_list_const) (auto dest: pixels_uniform)
  ultimately show ?thesis
    by (simp add: iloop_pixels foldl_add_rgb length_pixels)
qed

lemma Dx_uniform: "Dx (uniform w h c) = w" and Dy_uniform: "Dy (uniform w h c) = h"
  by (simp_all add: uniform_def)

lemma boxColor_uniform_examples:
  "boxColor (uniform 2 2 (0xffff, 0xffff, 0xffff)) 1 x y = (255, 255, 255)"
  "boxColor (uniform 2 2 (0xffff, 0xffff, 0xffff)) 2 x y = (255, 255, 255)"
  "boxColor (uniform 1 1 (5911, 52685, 514)) 1 x y = (23, 205, 2)"
  "boxColor (uniform 1 1 (3341, 41891, 29041)) 1 x y = (13, 163, 113)"
  "boxColor (uniform 50 50 (771, 48573, 55255)) 50 x y = (3, 189, 215)"
  "boxColor (uniform 80 80 (0, 11565, 55255)) 80 x y = (0, 45, 215)"
  "boxColor (uniform 50 50 (0, 0, 21845)) 50 x y = (0, 0, 85)"
  by (simp_all add: boxColor_def iloop_uniform uint32_int64 avg_def)

lemma luma_f64_examples:
  "lumaBT709_f64 255 255 255 = 9007199254740991 / 9007199254740992"
  "lumaBT601_f64 255 255 255 = 2319353808095805 / 2251799813685248"
  "lumaBT601_f64 0 0 0 = 0"
  "lumaBT601_f64 23 205 2 = 9007199254740991 / 18014398509481984"
  "lumaBT709_f64 13 163 113 = 1 / 2"
  "lumaBT601_f64 3 189 215 = 1261007895663739 / 2251799813685248"
  "lumaBT601_f64 0 45 215 = 8106479329266893 / 36028797018963968"
  "lumaBT601_f64 0 0 85 = 6917529027641081 / 144115188075855872"
  by (simp_all add: lumaBT709_f64_def lumaBT601_f64_def f64_eval)

lemma cells_examples:
  "cells 1 1 = [(0, 0)]" "cells 2 2 = [(0, 0), (0, 1), (1, 0), (1, 1)]" "cells 2 1 = [(0, 0), (1, 0)]"
  by (simp_all add: cells_def upto_rec1)

lemma quo_examples:
  "quo 2 1 = 2" "quo 1 1 = 1" "quo 1 2 = 0" "quo 2 2 = 1" "quo 50 50 = 1" "quo 50 2 = 25"
  "quo 80 80 = 1" "quo 80 2 = 40"
  by (simp_all add: quo_def int64_def signed_divide_int_def)

lemma radius_f64_examples:
  "radius_f64 False (9007199254740991 / 9007199254740992) 0 1 = Some 0"
  "radius_f64 False (9007199254740991 / 9007199254740992) 1 1 = Some (1 / 9007199254740992)"
  "radius_f64 False (9007199254740991 / 18014398509481984) 0 1 = Some 0"
  "radius_f64 False 0 0 1 = Some 0"
  "radius_f64 False (1261007895663739 / 2251799813685248) 25 1 =
     Some (6192449487634431 / 562949953421312)"
  "radius_f64 False (8106479329266893 / 36028797018963968) 40 1 = Some 31"
  "radius_f64 False (6917529027641081 / 144115188075855872) 25 5 = Some 119"
  by (simp_all add: radius_f64_def int64_def f64_eval)

lemmas dot_f64_eval =
  dot_f64_def mkLocals_f64_def Let_def fill_style_def hex02_def hex.simps hex_digit_def
  int64_def int_f64_def



section \<open>The threshold\<close>

text \<open>
  C6. A box is skipped exactly when the luma the program computes for it is at or above the
  threshold: when the file is created and \<^verbatim>\<open>boxSize\<close> is not a multiple of 65536, the circles
  drawn are those of the boxes with \<open>\<not> luma \<ge> lumaThreshold\<close>, in grid order. With the
  threshold 0 no circle is drawn; with the threshold 1 the boxes drawn are exactly those of
  luma below 1.
\<close>

theorem threshold_rule_f64:
  assumes "create_ok" "\<not> 65536 dvd boxSize"
  shows "makeDots_f64 bt701 create_ok img boxSize thr color bt709 fn scale lumaArea =
           Inr (map (\<lambda>(x, y). dot_f64 (mkLocals_f64 bt701 img boxSize thr color scale lumaArea) x y
                                (boxColor img boxSize x y) (boxLuma_f64 bt701 img boxSize x y))
                  (filter (\<lambda>(x, y). \<not> boxLuma_f64 bt701 img boxSize x y \<ge> thr)
                     (cells (quo (Dx img) boxSize) (quo (Dy img) boxSize)))) \<and>
         makeDots_f64 bt701 create_ok img boxSize 0 color bt709 fn scale lumaArea = Inr [] \<and>
         makeDots_f64 bt701 create_ok img boxSize 1 color bt709 fn scale lumaArea =
           Inr (map (\<lambda>(x, y). dot_f64 (mkLocals_f64 bt701 img boxSize 1 color scale lumaArea) x y
                                (boxColor img boxSize x y) (boxLuma_f64 bt701 img boxSize x y))
                  (filter (\<lambda>(x, y). boxLuma_f64 bt701 img boxSize x y < 1)
                     (cells (quo (Dx img) boxSize) (quo (Dy img) boxSize))))"
proof (intro conjI)
  show "makeDots_f64 bt701 create_ok img boxSize 0 color bt709 fn scale lumaArea = Inr []"
    by (simp add: makeDots_f64_ok [OF assms] boxLuma_f64_nonneg)
  show "makeDots_f64 bt701 create_ok img boxSize 1 color bt709 fn scale lumaArea =
           Inr (map (\<lambda>(x, y). dot_f64 (mkLocals_f64 bt701 img boxSize 1 color scale lumaArea) x y
                                (boxColor img boxSize x y) (boxLuma_f64 bt701 img boxSize x y))
                  (filter (\<lambda>(x, y). boxLuma_f64 bt701 img boxSize x y < 1)
                     (cells (quo (Dx img) boxSize) (quo (Dy img) boxSize))))"
    by (simp add: makeDots_f64_ok [OF assms] not_le)
qed (rule makeDots_f64_ok [OF assms])

theorem threshold_rule_f64_witness:
  "\<not> 65536 dvd (1::int) \<and>
   boxLuma_f64 True (uniform 2 2 (0xffff, 0xffff, 0xffff)) 1 0 0 =
     9007199254740991 / 9007199254740992 \<and>
   makeDots_f64 True True (uniform 2 2 (0xffff, 0xffff, 0xffff)) 1 1 True False ''out.svg'' 1 False =
     Inr [\<lparr>circle_x = 0, circle_y = 0, circle_r = Some 0,
           circle_style = ''fill:#ffffff;stroke:none''\<rparr>,
          \<lparr>circle_x = 0, circle_y = 1, circle_r = Some 0,
           circle_style = ''fill:#ffffff;stroke:none''\<rparr>,
          \<lparr>circle_x = 1, circle_y = 0, circle_r = Some 0,
           circle_style = ''fill:#ffffff;stroke:none''\<rparr>,
          \<lparr>circle_x = 1, circle_y = 1, circle_r = Some 0,
           circle_style = ''fill:#ffffff;stroke:none''\<rparr>] \<and>
   boxLuma_f64 False (uniform 2 2 (0xffff, 0xffff, 0xffff)) 1 0 0 =
     2319353808095805 / 2251799813685248 \<and>
   makeDots_f64 False True (uniform 2 2 (0xffff, 0xffff, 0xffff)) 1 1 True False ''out.svg'' 1 False =
     Inr [] \<and>
   boxLuma_f64 False (uniform 1 1 (5911, 52685, 514)) 1 0 0 =
     9007199254740991 / 18014398509481984 \<and>
   makeDots_f64 False True (uniform 1 1 (5911, 52685, 514)) 1 (1 / 2) True False ''out.svg'' 1 False =
     Inr [\<lparr>circle_x = 0, circle_y = 0, circle_r = Some 0,
           circle_style = ''fill:#17cd02;stroke:none''\<rparr>] \<and>
   boxLuma_f64 True (uniform 1 1 (3341, 41891, 29041)) 1 0 0 = 1 / 2 \<and>
   makeDots_f64 True True (uniform 1 1 (3341, 41891, 29041)) 1 (1 / 2) True False ''out.svg'' 1 False =
     Inr [] \<and>
   makeDots_f64 True True (uniform 2 2 (0xffff, 0xffff, 0xffff)) 1 0 True False ''out.svg'' 1 False =
     Inr []"
proof -
  have h: "\<not> 65536 dvd (1::int)"
    by simp
  note t = threshold_rule_f64 [OF TrueI h]
  have l: "boxLuma_f64 True (uniform 2 2 (0xffff, 0xffff, 0xffff)) 1 x y =
        9007199254740991 / 9007199254740992"
      "boxLuma_f64 False (uniform 2 2 (0xffff, 0xffff, 0xffff)) 1 x y =
        2319353808095805 / 2251799813685248"
      "boxLuma_f64 False (uniform 1 1 (5911, 52685, 514)) 1 x y =
        9007199254740991 / 18014398509481984"
      "boxLuma_f64 True (uniform 1 1 (3341, 41891, 29041)) 1 x y = 1 / 2" for x y
    by (simp_all add: boxLuma_f64_def boxColor_uniform_examples luma_f64_examples)
  have a: "makeDots_f64 True True (uniform 2 2 (0xffff, 0xffff, 0xffff)) 1 1 True False ''out.svg'' 1
        False =
     Inr [\<lparr>circle_x = 0, circle_y = 0, circle_r = Some 0,
           circle_style = ''fill:#ffffff;stroke:none''\<rparr>,
          \<lparr>circle_x = 0, circle_y = 1, circle_r = Some 0,
           circle_style = ''fill:#ffffff;stroke:none''\<rparr>,
          \<lparr>circle_x = 1, circle_y = 0, circle_r = Some 0,
           circle_style = ''fill:#ffffff;stroke:none''\<rparr>,
          \<lparr>circle_x = 1, circle_y = 1, circle_r = Some 0,
           circle_style = ''fill:#ffffff;stroke:none''\<rparr>]"
    using t [of True "uniform 2 2 (0xffff, 0xffff, 0xffff)" 1 True False "''out.svg''" 1 False]
    by (simp add: Dx_uniform Dy_uniform quo_examples cells_examples l boxColor_uniform_examples
          radius_f64_examples dot_f64_eval)
  have b: "makeDots_f64 False True (uniform 2 2 (0xffff, 0xffff, 0xffff)) 1 1 True False
        ''out.svg'' 1 False = Inr []"
    using t [of False "uniform 2 2 (0xffff, 0xffff, 0xffff)" 1 True False "''out.svg''" 1 False]
    by (simp add: Dx_uniform Dy_uniform quo_examples cells_examples l)
  have c: "makeDots_f64 False True (uniform 1 1 (5911, 52685, 514)) 1 (1 / 2) True False
        ''out.svg'' 1 False =
     Inr [\<lparr>circle_x = 0, circle_y = 0, circle_r = Some 0,
           circle_style = ''fill:#17cd02;stroke:none''\<rparr>]"
    using t [of False "uniform 1 1 (5911, 52685, 514)" "1 / 2" True False "''out.svg''" 1 False]
    by (simp add: Dx_uniform Dy_uniform quo_examples cells_examples l boxColor_uniform_examples
          radius_f64_examples dot_f64_eval)
  have d: "makeDots_f64 True True (uniform 2 2 (0xffff, 0xffff, 0xffff)) 1 0 True False
        ''out.svg'' 1 False = Inr []"
    using t [of True "uniform 2 2 (0xffff, 0xffff, 0xffff)" 1 True False "''out.svg''" 1 False]
    by simp
  have e: "makeDots_f64 True True (uniform 1 1 (3341, 41891, 29041)) 1 (1 / 2) True False
        ''out.svg'' 1 False = Inr []"
    using t [of True "uniform 1 1 (3341, 41891, 29041)" "1 / 2" True False "''out.svg''" 1 False]
    by (simp add: Dx_uniform Dy_uniform quo_examples cells_examples l)
  from h l a b c d e show ?thesis
    by simp
qed

section \<open>The radius\<close>






end
